theory Spec2Isabelle
  imports Main
begin

section \<open>Version stamper: \<^verbatim>\<open>update_version.py\<close>\<close>

text \<open>
  The script reads \<^verbatim>\<open>plugin.cfg\<close>, asks \<^verbatim>\<open>git describe --tags --abbrev=6\<close> for a
  description of the checkout, turns every hyphen after the first into a plus, replaces
  each line starting with \<^verbatim>\<open>version=\<close> and writes the file back.

  A Python \<^verbatim>\<open>str\<close> is modelled as a \<^typ>\<open>string\<close>: one \<^typ>\<open>char\<close> per code point,
  for text whose code points are below 256. A file's contents are the text that Python's
  text layer reads and writes; the encoding and the translation of line endings between
  that text and the bytes on disk are outside the model.
\<close>

subsection \<open>The string methods the script calls\<close>

text \<open>\<^verbatim>\<open>s.count(c)\<close> for a one-character \<^verbatim>\<open>c\<close>.\<close>

fun str_count :: "string \<Rightarrow> char \<Rightarrow> nat" where
  "str_count [] c = 0"
| "str_count (x # xs) c = (if x = c then 1 else 0) + str_count xs c"

text \<open>\<^verbatim>\<open>s.find(c)\<close> for a one-character \<^verbatim>\<open>c\<close>: the lowest index, or \<open>-1\<close>.\<close>

fun str_find :: "string \<Rightarrow> char \<Rightarrow> int" where
  "str_find [] c = - 1"
| "str_find (x # xs) c =
     (if x = c then 0
      else (let r = str_find xs c in if r = - 1 then - 1 else r + 1))"

text \<open>
  Slices \<^verbatim>\<open>s[:j]\<close> and \<^verbatim>\<open>s[i:]\<close>: a negative bound counts from the end, and every
  bound is clipped to the string.
\<close>

definition clip_index :: "string \<Rightarrow> int \<Rightarrow> nat" where
  "clip_index s i =
     (let n = int (length s)
      in nat (if i < 0 then max 0 (n + i) else min i n))"

definition slice_to :: "string \<Rightarrow> int \<Rightarrow> string" where
  "slice_to s j = take (clip_index s j) s"

definition slice_from :: "string \<Rightarrow> int \<Rightarrow> string" where
  "slice_from s i = drop (clip_index s i) s"

text \<open>\<^verbatim>\<open>s.replace(old, new)\<close> for one-character \<^verbatim>\<open>old\<close> and \<^verbatim>\<open>new\<close>.\<close>

definition str_replace :: "string \<Rightarrow> char \<Rightarrow> char \<Rightarrow> string" where
  "str_replace s old new = map (\<lambda>c. if c = old then new else c) s"

text \<open>\<^verbatim>\<open>s.startswith(p)\<close>.\<close>

definition startswith :: "string \<Rightarrow> string \<Rightarrow> bool" where
  "startswith s p = (take (length p) s = p)"

text \<open>
  \<^verbatim>\<open>s.strip()\<close>: the white space of \<^verbatim>\<open>str\<close> among the code points below 256 is
  9 to 13, 28 to 32, 133 and 160.
\<close>

definition is_space :: "char \<Rightarrow> bool" where
  "is_space c =
     (c \<in> set [CHR 0x09, CHR 0x0A, CHR 0x0B, CHR 0x0C, CHR 0x0D,
                CHR 0x1C, CHR 0x1D, CHR 0x1E, CHR 0x1F, CHR 0x20,
                CHR 0x85, CHR 0xA0])"

definition strip :: "string \<Rightarrow> string" where
  "strip s = rev (dropWhile is_space (rev (dropWhile is_space s)))"

subsection \<open>Normalization (lines 11 to 16)\<close>

text \<open>
  The block updates \<^verbatim>\<open>git_describe\<close> and prints the new value when it has replaced
  something. The second component is the console output so far.
\<close>

definition normalization :: "string \<Rightarrow> string list \<Rightarrow> string \<times> string list" where
  "normalization git_describe out =
     (if 2 \<le> str_count git_describe CHR ''-'' then
        (let first_index = str_find git_describe CHR ''-'' in
         if first_index \<noteq> - 1 then
           (let git_describe' =
                  slice_to git_describe first_index @ ''-'' @
                  str_replace (slice_from git_describe (first_index + 1)) CHR ''-'' CHR ''+''
            in (git_describe', out @ [git_describe']))
         else (git_describe, out))
      else (git_describe, out))"

definition normalize_str :: "string \<Rightarrow> string" where
  "normalize_str s = fst (normalization s [])"

subsection \<open>Rewriting the lines (lines 18 to 22)\<close>

definition version_line :: "string \<Rightarrow> string" where
  "version_line git_describe = ''version=\"'' @ git_describe @ ''\"'' @ [CHR 0x0A]"

text \<open>One pass of the loop body: \<^verbatim>\<open>new_lines\<close> grows by one line.\<close>

fun rewrite_loop :: "string list \<Rightarrow> string list \<Rightarrow> string \<Rightarrow> string list" where
  "rewrite_loop new_lines [] git_describe = new_lines"
| "rewrite_loop new_lines (line # lines) git_describe =
     rewrite_loop
       (new_lines @ [if startswith line ''version='' then version_line git_describe else line])
       lines git_describe"

definition rewrite :: "string list \<Rightarrow> string \<Rightarrow> string list" where
  "rewrite lines git_describe = rewrite_loop [] lines git_describe"

subsection \<open>Files and the whole script\<close>

text \<open>
  \<^verbatim>\<open>file.readlines()\<close> cuts the text after each newline and keeps the newline in the
  line; \<^verbatim>\<open>file.writelines\<close> writes the lines one after the other.
\<close>

fun readlines_from :: "string \<Rightarrow> string \<Rightarrow> string list" where
  "readlines_from cur [] = (if cur = [] then [] else [cur])"
| "readlines_from cur (c # cs) =
     (if c = CHR 0x0A then (cur @ [c]) # readlines_from [] cs
      else readlines_from (cur @ [c]) cs)"

definition readlines :: "string \<Rightarrow> string list" where
  "readlines text = readlines_from [] text"

definition writelines :: "string list \<Rightarrow> string" where
  "writelines lines = concat lines"

datatype error = FileNotFoundError | CalledProcessError int | UnicodeDecodeError

text \<open>
  The world the script acts on: the files by path, and the console output, one entry
  for each \<^verbatim>\<open>print\<close>.
\<close>

record world =
  files :: "string \<rightharpoonup> string"
  stdout :: "string list"

text \<open>
  \<open>git\<close> is the outcome of
  \<^verbatim>\<open>subprocess.check_output(["git", "describe", ...]).decode("utf-8")\<close>: the decoded
  output of the command, or the exception that the call or the decoding raises. The
  script catches nothing, so an exception ends the run in the world reached so far.
\<close>

definition main :: "error + string \<Rightarrow> world \<Rightarrow> (error + unit) \<times> world" where
  "main git w =
     (case files w ''plugin.cfg'' of
        None \<Rightarrow> (Inl FileNotFoundError, w)
      | Some text \<Rightarrow>
          (let lines = readlines text in
           case git of
             Inl e \<Rightarrow> (Inl e, w)
           | Inr output \<Rightarrow>
               (let git_describe = strip output;
                    out1 = stdout w @ [git_describe];
                    (git_describe', out2) = normalization git_describe out1;
                    new_lines = rewrite lines git_describe'
                in (Inr (),
                    w\<lparr>files := (files w)(''plugin.cfg'' \<mapsto> writelines new_lines),
                      stdout := out2\<rparr>))))"

section \<open>Properties\<close>

subsection \<open>Counting and finding a character\<close>

lemma str_find_notin: "c \<notin> set s \<Longrightarrow> str_find s c = - 1"
  by (induction s) (auto simp: Let_def)

lemma str_find_in: "c \<in> set s \<Longrightarrow> str_find s c = int (length (takeWhile (\<lambda>x. x \<noteq> c) s))"
  by (induction s) (auto simp: Let_def str_find_notin)

lemma str_count_pos_in: "0 < str_count s c \<Longrightarrow> c \<in> set s"
  by (induction s) (auto split: if_splits)

lemma str_count_append: "str_count (xs @ ys) c = str_count xs c + str_count ys c"
  by (induction xs) auto

lemma str_count_notin: "c \<notin> set s \<Longrightarrow> str_count s c = 0"
  by (induction s) auto

lemma str_count_replace_old: "old \<noteq> new \<Longrightarrow> str_count (str_replace s old new) old = 0"
  by (induction s) (auto simp: str_replace_def)

lemma str_count_replace_new:
  "old \<noteq> new \<Longrightarrow> str_count (str_replace s old new) new = str_count s new + str_count s old"
  by (induction s) (auto simp: str_replace_def)

lemma slice_to_nat: "n \<le> length s \<Longrightarrow> slice_to s (int n) = take n s"
  by (simp add: slice_to_def clip_index_def Let_def)

lemma slice_from_nat: "n \<le> length s \<Longrightarrow> slice_from s (int n) = drop n s"
  by (simp add: slice_from_def clip_index_def Let_def)

text \<open>The position of the first occurrence of \<open>c\<close> is the length of the run before it.\<close>

lemma first_lt: "c \<in> set s \<Longrightarrow> length (takeWhile (\<lambda>x. x \<noteq> c) s) < length s"
  by (induction s) auto

lemma first_nth: "c \<in> set s \<Longrightarrow> s ! length (takeWhile (\<lambda>x. x \<noteq> c) s) = c"
  by (induction s) auto

lemma first_take: "take (length (takeWhile (\<lambda>x. x \<noteq> c) s)) s = takeWhile (\<lambda>x. x \<noteq> c) s"
  by (induction s) auto

lemma first_notin: "c \<notin> set (takeWhile (\<lambda>x. x \<noteq> c) s)"
  by (induction s) auto

lemma str_count_split:
  "c \<in> set s \<Longrightarrow>
   str_count s c = Suc (str_count (drop (Suc (length (takeWhile (\<lambda>x. x \<noteq> c) s))) s) c)"
  by (induction s) auto

subsection \<open>Normalization\<close>

lemma normalize_str_unfold:
  "normalize_str s =
     (if 2 \<le> str_count s CHR ''-'' \<and> str_find s CHR ''-'' \<noteq> - 1
      then slice_to s (str_find s CHR ''-'') @ ''-'' @
           str_replace (slice_from s (str_find s CHR ''-'' + 1)) CHR ''-'' CHR ''+''
      else s)"
  by (simp add: normalize_str_def normalization_def Let_def)

lemma normalize_str_many:
  assumes "2 \<le> str_count S CHR ''-''"
  shows "normalize_str S =
           take (Suc (nat (str_find S CHR ''-''))) S @
           str_replace (drop (Suc (nat (str_find S CHR ''-''))) S) CHR ''-'' CHR ''+''"
proof -
  let ?i = "length (takeWhile (\<lambda>x. x \<noteq> CHR ''-'') S)"
  have mem: "CHR ''-'' \<in> set S" using assms by (intro str_count_pos_in) simp
  have f: "str_find S CHR ''-'' = int ?i" using mem by (rule str_find_in)
  have lt: "?i < length S" using mem by (rule first_lt)
  have tk: "take (Suc ?i) S = take ?i S @ ''-''"
    using lt first_nth [OF mem] by (simp add: take_Suc_conv_app_nth)
  have s1: "slice_to S (int ?i) = take ?i S" using lt by (simp add: slice_to_nat)
  have s2: "slice_from S (int ?i + 1) = drop (Suc ?i) S"
    using lt slice_from_nat [of "Suc ?i" S] by (simp add: add.commute)
  show ?thesis
    unfolding normalize_str_unfold f using assms s1 s2 tk by simp
qed

lemma normalize_str_count:
  assumes "2 \<le> str_count S CHR ''-''"
  shows "str_count (normalize_str S) CHR ''-'' = 1"
proof -
  let ?i = "length (takeWhile (\<lambda>x. x \<noteq> CHR ''-'') S)"
  have mem: "CHR ''-'' \<in> set S" using assms by (intro str_count_pos_in) simp
  have f: "nat (str_find S CHR ''-'') = ?i" using mem by (simp add: str_find_in)
  have tk: "take (Suc ?i) S = takeWhile (\<lambda>x. x \<noteq> CHR ''-'') S @ ''-''"
    using first_lt [OF mem] first_nth [OF mem] by (simp add: take_Suc_conv_app_nth first_take)
  have "str_count (take (Suc ?i) S) CHR ''-'' = 1"
    unfolding tk by (simp add: str_count_append str_count_notin first_notin)
  then show ?thesis
    unfolding normalize_str_many [OF assms] f
    by (simp add: str_count_append str_count_replace_old)
qed

text \<open>
  C1: when \<open>S\<close> has two hyphens or more, the first hyphen is at index \<open>i\<close> (no hyphen
  before it), and the normalized string is \<open>S\<close> up to and including that hyphen followed
  by the rest of \<open>S\<close> with every hyphen turned into a plus. The part of the result after
  index \<open>i\<close> has no hyphen, and it has as many plus characters as the rest of \<open>S\<close> had,
  and the hyphen count of \<open>S\<close> minus one more.
\<close>

theorem normalize_str_many_hyphens:
  "2 \<le> str_count S CHR ''-'' \<Longrightarrow>
   (let i = nat (str_find S CHR ''-'');
        suffix = drop (Suc i) (normalize_str S)
    in i < length S \<and> S ! i = CHR ''-'' \<and> CHR ''-'' \<notin> set (take i S) \<and>
       normalize_str S = take (Suc i) S @ str_replace (drop (Suc i) S) CHR ''-'' CHR ''+'' \<and>
       str_count suffix CHR ''-'' = 0 \<and>
       str_count suffix CHR ''+'' =
         str_count (drop (Suc i) S) CHR ''+'' + (str_count S CHR ''-'' - 1))"
proof -
  assume a: "2 \<le> str_count S CHR ''-''"
  let ?i = "length (takeWhile (\<lambda>x. x \<noteq> CHR ''-'') S)"
  have mem: "CHR ''-'' \<in> set S" using a by (intro str_count_pos_in) simp
  have f: "nat (str_find S CHR ''-'') = ?i" using mem by (simp add: str_find_in)
  have lt: "?i < length S" using mem by (rule first_lt)
  have nth: "S ! ?i = CHR ''-''" using mem by (rule first_nth)
  have notin: "CHR ''-'' \<notin> set (take ?i S)" by (simp add: first_take first_notin)
  have eq: "normalize_str S = take (Suc ?i) S @ str_replace (drop (Suc ?i) S) CHR ''-'' CHR ''+''"
    using normalize_str_many [OF a] unfolding f .
  have suf: "drop (Suc ?i) (normalize_str S) = str_replace (drop (Suc ?i) S) CHR ''-'' CHR ''+''"
    unfolding eq using lt by simp
  have c0: "str_count (drop (Suc ?i) (normalize_str S)) CHR ''-'' = 0"
    unfolding suf by (simp add: str_count_replace_old)
  have c1: "str_count (drop (Suc ?i) (normalize_str S)) CHR ''+'' =
              str_count (drop (Suc ?i) S) CHR ''+'' + (str_count S CHR ''-'' - 1)"
    unfolding suf using str_count_split [OF mem] by (simp add: str_count_replace_new)
  show ?thesis
    unfolding Let_def f using lt nth notin eq c0 c1 by simp
qed

theorem normalize_str_many_hyphens_witness:
  "2 \<le> str_count ''v1.2.3-rc1-5-gabcdef'' CHR ''-'' \<and>
   nat (str_find ''v1.2.3-rc1-5-gabcdef'' CHR ''-'') = 6 \<and>
   normalize_str ''v1.2.3-rc1-5-gabcdef'' = ''v1.2.3-rc1+5+gabcdef'' \<and>
   str_count (drop 7 (normalize_str ''v1.2.3-rc1-5-gabcdef'')) CHR ''-'' = 0 \<and>
   str_count (drop 7 (normalize_str ''v1.2.3-rc1-5-gabcdef'')) CHR ''+'' = 2"
proof -
  have h: "2 \<le> str_count ''v1.2.3-rc1-5-gabcdef'' CHR ''-''" by simp
  have i: "nat (str_find ''v1.2.3-rc1-5-gabcdef'' CHR ''-'') = 6" by simp
  show ?thesis
    using h normalize_str_many_hyphens [OF h] unfolding Let_def i
    by (simp add: str_replace_def)
qed

text \<open>
  C2: a string with fewer than two hyphens is returned unchanged by normalization.
\<close>

theorem normalize_str_few_hyphens:
  "str_count S CHR ''-'' < 2 \<Longrightarrow> normalize_str S = S"
  by (simp add: normalize_str_unfold)

theorem normalize_str_few_hyphens_witness:
  "str_count ''v1.2.3-rc1'' CHR ''-'' < 2 \<and> normalize_str ''v1.2.3-rc1'' = ''v1.2.3-rc1''"
proof -
  have h: "str_count ''v1.2.3-rc1'' CHR ''-'' < 2" by simp
  show ?thesis using h normalize_str_few_hyphens [OF h] by simp
qed

text \<open>
  C3: normalization is idempotent, and a string with at most one hyphen is left as it
  is.
\<close>

theorem normalize_str_idempotent:
  "normalize_str (normalize_str S) = normalize_str S \<and>
   (str_count S CHR ''-'' \<le> 1 \<longrightarrow> normalize_str S = S)"
proof (intro conjI impI)
  show "normalize_str (normalize_str S) = normalize_str S"
  proof (cases "2 \<le> str_count S CHR ''-''")
    case True
    then have "str_count (normalize_str S) CHR ''-'' = 1" by (rule normalize_str_count)
    then show ?thesis by (simp add: normalize_str_unfold [of "normalize_str S"])
  next
    case False
    then show ?thesis by (simp add: normalize_str_unfold)
  qed
next
  assume "str_count S CHR ''-'' \<le> 1"
  then show "normalize_str S = S" by (simp add: normalize_str_unfold)
qed

theorem normalize_str_idempotent_witness:
  "str_count ''v2.0.0-14+gdeadbe'' CHR ''-'' \<le> 1 \<and>
   normalize_str ''v2.0.0-14+gdeadbe'' = ''v2.0.0-14+gdeadbe'' \<and>
   normalize_str (normalize_str ''v2.0.0-14-gdeadbe'') = normalize_str ''v2.0.0-14-gdeadbe'' \<and>
   normalize_str ''v2.0.0-14-gdeadbe'' = ''v2.0.0-14+gdeadbe''"
proof -
  have h: "str_count ''v2.0.0-14+gdeadbe'' CHR ''-'' \<le> 1" by simp
  have n: "normalize_str ''v2.0.0-14-gdeadbe'' = ''v2.0.0-14+gdeadbe''"
    by (simp add: normalize_str_unfold slice_to_def slice_from_def clip_index_def
        str_replace_def)
  show ?thesis
    using h n normalize_str_idempotent [of "''v2.0.0-14+gdeadbe''"]
      normalize_str_idempotent [of "''v2.0.0-14-gdeadbe''"]
    by simp
qed

text \<open>
  C10: with two hyphens or more, \<^verbatim>\<open>find\<close> returns an index of the string and never
  \<open>-1\<close>, so the block takes the branch that replaces: it sets \<^verbatim>\<open>git_describe\<close> to the
  rebuilt string and prints it.
\<close>

theorem first_index_guard_true:
  "2 \<le> str_count S CHR ''-'' \<Longrightarrow>
   str_find S CHR ''-'' \<noteq> - 1 \<and> 0 \<le> str_find S CHR ''-'' \<and>
   str_find S CHR ''-'' < int (length S) \<and>
   normalization S out =
     (slice_to S (str_find S CHR ''-'') @ ''-'' @
        str_replace (slice_from S (str_find S CHR ''-'' + 1)) CHR ''-'' CHR ''+'',
      out @ [slice_to S (str_find S CHR ''-'') @ ''-'' @
        str_replace (slice_from S (str_find S CHR ''-'' + 1)) CHR ''-'' CHR ''+''])"
proof -
  assume a: "2 \<le> str_count S CHR ''-''"
  have mem: "CHR ''-'' \<in> set S" using a by (intro str_count_pos_in) simp
  have f: "str_find S CHR ''-'' = int (length (takeWhile (\<lambda>x. x \<noteq> CHR ''-'') S))"
    using mem by (rule str_find_in)
  have lt: "str_find S CHR ''-'' < int (length S)"
    unfolding f using first_lt [OF mem] by simp
  have ne: "str_find S CHR ''-'' \<noteq> - 1" "0 \<le> str_find S CHR ''-''" unfolding f by simp_all
  show ?thesis using a ne lt by (simp add: normalization_def Let_def)
qed

theorem first_index_guard_true_witness:
  "2 \<le> str_count ''v1.2.3-5-gabcdef'' CHR ''-'' \<and>
   str_find ''v1.2.3-5-gabcdef'' CHR ''-'' = 6 \<and>
   normalization ''v1.2.3-5-gabcdef'' [''v1.2.3-5-gabcdef''] =
     (''v1.2.3-5+gabcdef'', [''v1.2.3-5-gabcdef'', ''v1.2.3-5+gabcdef''])"
proof -
  have h: "2 \<le> str_count ''v1.2.3-5-gabcdef'' CHR ''-''" by simp
  have i: "str_find ''v1.2.3-5-gabcdef'' CHR ''-'' = 6" by simp
  show ?thesis
    using h first_index_guard_true [OF h, of "[''v1.2.3-5-gabcdef'']"] unfolding i
    by (simp add: slice_to_def slice_from_def clip_index_def str_replace_def)
qed

subsection \<open>Rewriting the lines\<close>

lemma rewrite_loop_map:
  "rewrite_loop new_lines lines v =
     new_lines @ map (\<lambda>line. if startswith line ''version='' then version_line v else line) lines"
  by (induction lines arbitrary: new_lines) auto

lemma rewrite_map:
  "rewrite lines v = map (\<lambda>line. if startswith line ''version='' then version_line v else line) lines"
  by (simp add: rewrite_def rewrite_loop_map)

lemma rewrite_id:
  "\<forall>l\<in>set lines. \<not> startswith l ''version='' \<Longrightarrow> rewrite lines v = lines"
  unfolding rewrite_map by (induction lines) auto

lemma concat_readlines_from: "concat (readlines_from cur s) = cur @ s"
  by (induction cur s rule: readlines_from.induct) auto

lemma writelines_readlines: "writelines (readlines s) = s"
  by (simp add: writelines_def readlines_def concat_readlines_from)

lemma readlines_from_nonempty: "cur @ s \<noteq> [] \<Longrightarrow> readlines_from cur s \<noteq> []"
  by (induction cur s rule: readlines_from.induct) auto

lemma readlines_nonempty: "s \<noteq> [] \<Longrightarrow> readlines s \<noteq> []"
  by (simp add: readlines_def readlines_from_nonempty)

text \<open>A run in which the file is there and the describe command succeeds.\<close>

lemma main_success:
  "files w ''plugin.cfg'' = Some s \<Longrightarrow>
   main (Inr output) w =
     (Inr (),
      w\<lparr>files := (files w)(''plugin.cfg'' \<mapsto>
              writelines (rewrite (readlines s) (normalize_str (strip output)))),
        stdout := snd (normalization (strip output) (stdout w @ [strip output]))\<rparr>)"
  by (simp add: main_def Let_def normalize_str_def normalization_def split: prod.splits)

text \<open>
  C4: the rewritten sequence has the length of the input, and at every position whose
  line does not start with \<^verbatim>\<open>version=\<close> it holds the very same line, terminator
  included. So lines keep their order, and only lines starting with \<^verbatim>\<open>version=\<close>
  can differ.
\<close>

theorem rewrite_frame:
  "length (rewrite lines v) = length lines \<and>
   (\<forall>i<length lines. \<not> startswith (lines ! i) ''version='' \<longrightarrow> rewrite lines v ! i = lines ! i)"
  by (simp add: rewrite_map)

theorem rewrite_frame_witness:
  "length (rewrite [''name=x'' @ [CHR 0x0D, CHR 0x0A], ''version=1'' @ [CHR 0x0A], '' version=2'']
             ''v1'') = 3 \<and>
   \<not> startswith (''name=x'' @ [CHR 0x0D, CHR 0x0A]) ''version='' \<and>
   \<not> startswith '' version=2'' ''version='' \<and>
   rewrite [''name=x'' @ [CHR 0x0D, CHR 0x0A], ''version=1'' @ [CHR 0x0A], '' version=2'']
     ''v1'' ! 0 = ''name=x'' @ [CHR 0x0D, CHR 0x0A] \<and>
   rewrite [''name=x'' @ [CHR 0x0D, CHR 0x0A], ''version=1'' @ [CHR 0x0A], '' version=2'']
     ''v1'' ! 2 = '' version=2''"
  using rewrite_frame
    [of "[''name=x'' @ [CHR 0x0D, CHR 0x0A], ''version=1'' @ [CHR 0x0A], '' version=2'']" "''v1''"]
  by (simp add: startswith_def rewrite_def version_line_def)

text \<open>
  C5: at every position whose line starts with \<^verbatim>\<open>version=\<close>, the rewritten sequence
  holds the line \<^verbatim>\<open>version="v"\<close> ended by a newline: the same line for every match.
\<close>

theorem rewrite_replaces_every_match:
  "\<forall>i<length lines. startswith (lines ! i) ''version='' \<longrightarrow>
     rewrite lines v ! i = ''version=\"'' @ v @ ''\"'' @ [CHR 0x0A]"
  by (simp add: rewrite_map version_line_def)

theorem rewrite_replaces_every_match_witness:
  "startswith (''version=1'' @ [CHR 0x0A]) ''version='' \<and>
   startswith ''version='' ''version='' \<and>
   rewrite [''version=1'' @ [CHR 0x0A], ''name=x'' @ [CHR 0x0A], ''version=''] ''v1.2.3'' ! 0 =
     ''version=\"v1.2.3\"'' @ [CHR 0x0A] \<and>
   rewrite [''version=1'' @ [CHR 0x0A], ''name=x'' @ [CHR 0x0A], ''version=''] ''v1.2.3'' ! 2 =
     ''version=\"v1.2.3\"'' @ [CHR 0x0A]"
  using rewrite_replaces_every_match
    [of "[''version=1'' @ [CHR 0x0A], ''name=x'' @ [CHR 0x0A], ''version='']" "''v1.2.3''"]
  by (simp add: startswith_def rewrite_def version_line_def)

text \<open>
  C6: when no line starts with \<^verbatim>\<open>version=\<close>, the rewritten sequence is the input
  sequence. In a run of the script on such a file, with a describe command that
  succeeds, no exception is raised and the text written back is the text that was read.
\<close>

theorem rewrite_no_match_unchanged:
  "((\<forall>l\<in>set lines. \<not> startswith l ''version='') \<longrightarrow> rewrite lines v = lines) \<and>
   (files w ''plugin.cfg'' = Some s \<and>
    (\<forall>l\<in>set (readlines s). \<not> startswith l ''version='') \<longrightarrow>
      fst (main (Inr output) w) = Inr () \<and>
      files (snd (main (Inr output) w)) ''plugin.cfg'' = Some s \<and>
      files (snd (main (Inr output) w)) = files w)"
proof (intro conjI impI)
  assume "\<forall>l\<in>set lines. \<not> startswith l ''version=''"
  then show "rewrite lines v = lines" by (rule rewrite_id)
next
  assume a: "files w ''plugin.cfg'' = Some s \<and>
    (\<forall>l\<in>set (readlines s). \<not> startswith l ''version='')"
  then show "fst (main (Inr output) w) = Inr ()" by (simp add: main_success)
  from a have r: "rewrite (readlines s) (normalize_str (strip output)) = readlines s"
    by (intro rewrite_id) simp
  with a show "files (snd (main (Inr output) w)) ''plugin.cfg'' = Some s"
    by (simp add: main_success writelines_readlines)
  from a r show "files (snd (main (Inr output) w)) = files w"
    by (simp add: main_success writelines_readlines map_upd_triv)
qed

theorem rewrite_no_match_unchanged_witness:
  "\<not> startswith (''name=plugin'' @ [CHR 0x0A]) ''version='' \<and>
   \<not> startswith ''author=x'' ''version='' \<and>
   rewrite [''name=plugin'' @ [CHR 0x0A], ''author=x''] ''v2.0.0'' =
     [''name=plugin'' @ [CHR 0x0A], ''author=x''] \<and>
   readlines (''name=plugin'' @ [CHR 0x0A] @ ''author=x'') =
     [''name=plugin'' @ [CHR 0x0A], ''author=x''] \<and>
   fst (main (Inr (''v2.0.0'' @ [CHR 0x0A]))
         \<lparr>files = [''plugin.cfg'' \<mapsto> ''name=plugin'' @ [CHR 0x0A] @ ''author=x''],
           stdout = []\<rparr>) = Inr () \<and>
   files (snd (main (Inr (''v2.0.0'' @ [CHR 0x0A]))
         \<lparr>files = [''plugin.cfg'' \<mapsto> ''name=plugin'' @ [CHR 0x0A] @ ''author=x''],
           stdout = []\<rparr>)) ''plugin.cfg'' = Some (''name=plugin'' @ [CHR 0x0A] @ ''author=x'')"
proof -
  have r: "readlines (''name=plugin'' @ [CHR 0x0A] @ ''author=x'') =
      [''name=plugin'' @ [CHR 0x0A], ''author=x'']"
    by (simp add: readlines_def)
  show ?thesis
    using r rewrite_no_match_unchanged
      [of "[''name=plugin'' @ [CHR 0x0A], ''author=x'']" "''v2.0.0''"
          "\<lparr>files = [''plugin.cfg'' \<mapsto> ''name=plugin'' @ [CHR 0x0A] @ ''author=x''],
            stdout = []\<rparr>"
          "''name=plugin'' @ [CHR 0x0A] @ ''author=x''" "''v2.0.0'' @ [CHR 0x0A]"]
    by (simp add: startswith_def)
qed

text \<open>
  C9: a replaced line always ends with a newline, whatever ended the line it replaces.
  When the last line of a file starts with \<^verbatim>\<open>version=\<close>, the text written back ends
  with a newline, also when the text read did not.
\<close>

theorem version_line_ends_with_newline:
  "(\<forall>i<length lines. startswith (lines ! i) ''version='' \<longrightarrow>
      rewrite lines v ! i \<noteq> [] \<and> last (rewrite lines v ! i) = CHR 0x0A) \<and>
   (s \<noteq> [] \<and> startswith (last (readlines s)) ''version='' \<longrightarrow>
      writelines (rewrite (readlines s) v) \<noteq> [] \<and>
      last (writelines (rewrite (readlines s) v)) = CHR 0x0A)"
proof (intro conjI impI allI)
  fix i assume "i < length lines" "startswith (lines ! i) ''version=''"
  then show "rewrite lines v ! i \<noteq> []" "last (rewrite lines v ! i) = CHR 0x0A"
    by (simp_all add: rewrite_map version_line_def)
next
  assume a: "s \<noteq> [] \<and> startswith (last (readlines s)) ''version=''"
  then have ne: "readlines s \<noteq> []" by (simp add: readlines_nonempty)
  have "rewrite (butlast (readlines s) @ [last (readlines s)]) v =
      rewrite (butlast (readlines s)) v @ [version_line v]"
    using a unfolding rewrite_map by simp
  then have "rewrite (readlines s) v = rewrite (butlast (readlines s)) v @ [version_line v]"
    using ne by simp
  then have w: "writelines (rewrite (readlines s) v) =
      writelines (rewrite (butlast (readlines s)) v) @ version_line v"
    by (simp add: writelines_def)
  show "writelines (rewrite (readlines s) v) \<noteq> []"
    unfolding w by (simp add: version_line_def)
  show "last (writelines (rewrite (readlines s) v)) = CHR 0x0A"
    unfolding w by (simp add: version_line_def)
qed

theorem version_line_ends_with_newline_witness:
  "startswith ''version=1'' ''version='' \<and>
   readlines (''name=x'' @ [CHR 0x0A] @ ''version=1'') = [''name=x'' @ [CHR 0x0A], ''version=1''] \<and>
   last (''name=x'' @ [CHR 0x0A] @ ''version=1'') \<noteq> CHR 0x0A \<and>
   last (rewrite [''name=x'' @ [CHR 0x0A], ''version=1''] ''v2'' ! 1) = CHR 0x0A \<and>
   writelines (rewrite (readlines (''name=x'' @ [CHR 0x0A] @ ''version=1'')) ''v2'') =
     ''name=x'' @ [CHR 0x0A] @ ''version=\"v2\"'' @ [CHR 0x0A] \<and>
   last (writelines (rewrite (readlines (''name=x'' @ [CHR 0x0A] @ ''version=1'')) ''v2'')) =
     CHR 0x0A"
proof -
  have r: "readlines (''name=x'' @ [CHR 0x0A] @ ''version=1'') =
      [''name=x'' @ [CHR 0x0A], ''version=1'']"
    by (simp add: readlines_def)
  show ?thesis
    using r version_line_ends_with_newline
      [of "[''name=x'' @ [CHR 0x0A], ''version=1'']" "''v2''"
          "''name=x'' @ [CHR 0x0A] @ ''version=1''"]
    by (simp add: startswith_def rewrite_def version_line_def writelines_def)
qed

subsection \<open>The whole script\<close>

text \<open>
  C7: when the describe command fails, the run ends in the world it started in: nothing
  is written to any file and nothing is printed. The command is reached when the file
  could be read, and then the exception the run ends with is the command's own.
\<close>

theorem describe_failure_no_write:
  "snd (main (Inl e) w) = w \<and>
   files (snd (main (Inl e) w)) = files w \<and>
   (files w ''plugin.cfg'' = Some s \<longrightarrow> main (Inl e) w = (Inl e, w))"
  by (simp add: main_def Let_def split: option.splits)

theorem describe_failure_no_write_witness:
  "files \<lparr>files = [''plugin.cfg'' \<mapsto> ''version=1'' @ [CHR 0x0A]], stdout = []\<rparr> ''plugin.cfg'' =
     Some (''version=1'' @ [CHR 0x0A]) \<and>
   main (Inl (CalledProcessError 128))
     \<lparr>files = [''plugin.cfg'' \<mapsto> ''version=1'' @ [CHR 0x0A]], stdout = []\<rparr> =
     (Inl (CalledProcessError 128),
      \<lparr>files = [''plugin.cfg'' \<mapsto> ''version=1'' @ [CHR 0x0A]], stdout = []\<rparr>)"
  using describe_failure_no_write
    [of "CalledProcessError 128"
        "\<lparr>files = [''plugin.cfg'' \<mapsto> ''version=1'' @ [CHR 0x0A]], stdout = []\<rparr>"
        "''version=1'' @ [CHR 0x0A]"]
  by simp

text \<open>
  C8: when the describe command prints \<^verbatim>\<open>v2.0.0-beta-14-gdeadbe\<close> (with white space
  around it or not), the normalized string is \<^verbatim>\<open>v2.0.0-beta+14+gdeadbe\<close>, every line
  starting with \<^verbatim>\<open>version=\<close> becomes \<^verbatim>\<open>version="v2.0.0-beta+14+gdeadbe"\<close> with a
  newline, and the run writes the rewritten lines to the file and prints both strings.
\<close>

theorem end_to_end_beta:
  "strip output = ''v2.0.0-beta-14-gdeadbe'' \<Longrightarrow>
   normalize_str (strip output) = ''v2.0.0-beta+14+gdeadbe'' \<and>
   (\<forall>i<length lines. startswith (lines ! i) ''version='' \<longrightarrow>
      rewrite lines (normalize_str (strip output)) ! i =
        ''version=\"v2.0.0-beta+14+gdeadbe\"'' @ [CHR 0x0A]) \<and>
   (files w ''plugin.cfg'' = Some s \<longrightarrow>
      main (Inr output) w =
        (Inr (),
         w\<lparr>files := (files w)(''plugin.cfg'' \<mapsto>
                 writelines (rewrite (readlines s) ''v2.0.0-beta+14+gdeadbe'')),
           stdout := stdout w @ [''v2.0.0-beta-14-gdeadbe'', ''v2.0.0-beta+14+gdeadbe'']\<rparr>))"
proof -
  assume a: "strip output = ''v2.0.0-beta-14-gdeadbe''"
  have n: "normalization ''v2.0.0-beta-14-gdeadbe'' out =
             (''v2.0.0-beta+14+gdeadbe'', out @ [''v2.0.0-beta+14+gdeadbe''])" for out
    by (simp add: normalization_def Let_def slice_to_def slice_from_def clip_index_def
        str_replace_def)
  have n': "normalize_str ''v2.0.0-beta-14-gdeadbe'' = ''v2.0.0-beta+14+gdeadbe''"
    by (simp add: normalize_str_def n)
  have r: "\<forall>i<length lines. startswith (lines ! i) ''version='' \<longrightarrow>
      rewrite lines ''v2.0.0-beta+14+gdeadbe'' ! i =
        ''version=\"v2.0.0-beta+14+gdeadbe\"'' @ [CHR 0x0A]"
    by (simp add: rewrite_map version_line_def)
  have m: "main (Inr output) w =
        (Inr (),
         w\<lparr>files := (files w)(''plugin.cfg'' \<mapsto>
                 writelines (rewrite (readlines s) ''v2.0.0-beta+14+gdeadbe'')),
           stdout := stdout w @ [''v2.0.0-beta-14-gdeadbe'', ''v2.0.0-beta+14+gdeadbe'']\<rparr>)"
    if "files w ''plugin.cfg'' = Some s"
    unfolding main_success [OF that] a n n' by simp
  show ?thesis
    unfolding a
  proof (intro conjI impI)
    show "normalize_str ''v2.0.0-beta-14-gdeadbe'' = ''v2.0.0-beta+14+gdeadbe''"
      by (rule n')
    show "\<forall>i<length lines. startswith (lines ! i) ''version='' \<longrightarrow>
      rewrite lines (normalize_str ''v2.0.0-beta-14-gdeadbe'') ! i =
        ''version=\"v2.0.0-beta+14+gdeadbe\"'' @ [CHR 0x0A]"
      unfolding n' by (rule r)
    assume "files w ''plugin.cfg'' = Some s"
    then show "main (Inr output) w =
        (Inr (),
         w\<lparr>files := (files w)(''plugin.cfg'' \<mapsto>
                 writelines (rewrite (readlines s) ''v2.0.0-beta+14+gdeadbe'')),
           stdout := stdout w @ [''v2.0.0-beta-14-gdeadbe'', ''v2.0.0-beta+14+gdeadbe'']\<rparr>)"
      by (rule m)
  qed
qed

theorem end_to_end_beta_witness:
  "strip (''v2.0.0-beta-14-gdeadbe'' @ [CHR 0x0A]) = ''v2.0.0-beta-14-gdeadbe'' \<and>
   normalize_str (strip (''v2.0.0-beta-14-gdeadbe'' @ [CHR 0x0A])) = ''v2.0.0-beta+14+gdeadbe'' \<and>
   startswith (''version=\"old\"'' @ [CHR 0x0A]) ''version='' \<and>
   fst (main (Inr (''v2.0.0-beta-14-gdeadbe'' @ [CHR 0x0A]))
         \<lparr>files = [''plugin.cfg'' \<mapsto>
              ''name=plugin'' @ [CHR 0x0A] @ ''version=\"old\"'' @ [CHR 0x0A]],
           stdout = []\<rparr>) = Inr () \<and>
   files (snd (main (Inr (''v2.0.0-beta-14-gdeadbe'' @ [CHR 0x0A]))
         \<lparr>files = [''plugin.cfg'' \<mapsto>
              ''name=plugin'' @ [CHR 0x0A] @ ''version=\"old\"'' @ [CHR 0x0A]],
           stdout = []\<rparr>)) ''plugin.cfg'' =
     Some (''name=plugin'' @ [CHR 0x0A] @ ''version=\"v2.0.0-beta+14+gdeadbe\"'' @ [CHR 0x0A]) \<and>
   stdout (snd (main (Inr (''v2.0.0-beta-14-gdeadbe'' @ [CHR 0x0A]))
         \<lparr>files = [''plugin.cfg'' \<mapsto>
              ''name=plugin'' @ [CHR 0x0A] @ ''version=\"old\"'' @ [CHR 0x0A]],
           stdout = []\<rparr>)) = [''v2.0.0-beta-14-gdeadbe'', ''v2.0.0-beta+14+gdeadbe'']"
proof -
  have h: "strip (''v2.0.0-beta-14-gdeadbe'' @ [CHR 0x0A]) = ''v2.0.0-beta-14-gdeadbe''"
    by (simp add: strip_def is_space_def)
  have r: "readlines (''name=plugin'' @ [CHR 0x0A] @ ''version=\"old\"'' @ [CHR 0x0A]) =
      [''name=plugin'' @ [CHR 0x0A], ''version=\"old\"'' @ [CHR 0x0A]]"
    by (simp add: readlines_def)
  show ?thesis
    using h r end_to_end_beta
      [OF h,
        of "[''name=plugin'' @ [CHR 0x0A], ''version=\"old\"'' @ [CHR 0x0A]]"
           "\<lparr>files = [''plugin.cfg'' \<mapsto>
               ''name=plugin'' @ [CHR 0x0A] @ ''version=\"old\"'' @ [CHR 0x0A]],
             stdout = []\<rparr>"
           "''name=plugin'' @ [CHR 0x0A] @ ''version=\"old\"'' @ [CHR 0x0A]"]
    by (simp add: startswith_def rewrite_def version_line_def writelines_def)
qed

end
